theory Spec2Isabelle
  imports Complex_Main "HOL-Library.Word" "HOL-Library.Multiset"
begin

section \<open>Python values and exceptions\<close>

text \<open>
  The exceptions the two modules can raise.  \<open>RuntimeError\<close> is what the lifecycle guards
  of \<open>start\<close> and \<open>stop\<close> raise, \<open>AssertionError\<close> is raised by \<open>assert\<close>
  statements (and by \<open>multiprocessing.Process\<close> when a process object is started twice
  or joined before it was started), the others come from the interpreter.
\<close>

datatype error =
    RuntimeError | AssertionError | TypeError | ValueError | OverflowError
  | AttributeError | ImportError

text \<open>
  A float as numpy and Python see it: a finite value, the two infinities, or not-a-number.
  Finite values are idealised as reals (no rounding, no signed zero).
\<close>

datatype npfloat = Fin real | PInf | NInf | NaN

text \<open>
  The numbers a caller can hand to the speed setter: a Python \<open>int\<close>; an object that is
  not an \<open>int\<close> but implements \<open>__index__\<close> and \<open>__int__\<close> and compares with integers
  by its value, as the integer scalars of numpy do; a \<open>float\<close>.
\<close>

datatype pynum = PyInt int | PyIndex int | PyFloat npfloat

text \<open>Values stored in keyword dictionaries and instance attributes.\<close>

datatype pyval =
    PyNone
  | PyNum pynum
  | PyStr string
  | PyTuple "pyval list"
  | PyPath string
  | PyDict "(string \<times> pyval) list"
  | PyCell "32 word"
  | PyProcess bool

section \<open>The actuator handle: \<open>feedbacks/double_spinning_wheel.py\<close>\<close>

text \<open>
  \<open>multiprocessing.Value("i", 0)\<close> is a C \<open>int\<close>: a 32-bit cell.  Storing a Python
  integer, or an object that implements \<open>__index__\<close>, keeps the low 32 bits of its value
  (ctypes does no overflow check), reading it back gives the two's complement value.
  Storing a float raises \<open>TypeError\<close>.
\<close>

type_synonym cell = "32 word"

definition cell_store :: "pynum \<Rightarrow> error + cell" where
  "cell_store v =
     (case v of
        PyInt i \<Rightarrow> Inr (word_of_int i)
      | PyIndex i \<Rightarrow> Inr (word_of_int i)
      | PyFloat x \<Rightarrow> Inl TypeError)"

definition cell_value :: "cell \<Rightarrow> int" where
  "cell_value c = sint c"

text \<open>
  A \<open>multiprocessing.Process\<close> object can be started once; \<open>join\<close> needs a started
  process.  What the child does (the drawing loop) only reads the two cells.
\<close>

datatype process = Unstarted | Spawned

definition process_start :: "process \<Rightarrow> error + process" where
  "process_start p = (case p of Unstarted \<Rightarrow> Inr Spawned | Spawned \<Rightarrow> Inl AssertionError)"

definition process_join :: "process \<Rightarrow> error + process" where
  "process_join p = (case p of Unstarted \<Rightarrow> Inl AssertionError | Spawned \<Rightarrow> Inr Spawned)"

text \<open>The instance attributes that \<open>__init__\<close> creates, one field each.\<close>

record DoubleSpinningWheel =
  dsw_winkwargs :: "(string \<times> pyval) list"
  dsw_image :: string
  dsw_size :: pyval
  dsw_offset :: pyval
  dsw_speed :: cell
  dsw_status :: cell
  dsw_process :: process

text \<open>
  Python's attribute lookup on an instance: the names bound by \<open>__init__\<close> are found,
  any other name raises \<open>AttributeError\<close> (the class defines no \<open>__getattr__\<close> and no
  class attribute with a leading underscore besides its two static methods).
\<close>

definition getattr :: "DoubleSpinningWheel \<Rightarrow> string \<Rightarrow> error + pyval" where
  "getattr self name =
     (if name = ''_winkwargs'' then Inr (PyDict (dsw_winkwargs self))
      else if name = ''_image'' then Inr (PyPath (dsw_image self))
      else if name = ''_size'' then Inr (dsw_size self)
      else if name = ''_offset'' then Inr (dsw_offset self)
      else if name = ''_speed'' then Inr (PyCell (dsw_speed self))
      else if name = ''_status'' then Inr (PyCell (dsw_status self))
      else if name = ''_process'' then Inr (PyProcess (dsw_process self = Spawned))
      else Inl AttributeError)"

text \<open>
  What \<open>__init__\<close> needs from its surroundings: whether psychopy can be imported, the
  path the packaged wheel image resolves to and whether a file is there, and the helper
  \<open>_check_type(_, ("numeric",), _)\<close> of \<open>utils/_checks.py\<close>, taken as a parameter.
\<close>

record environment =
  psychopy_installed :: bool
  wheel_path :: string
  wheel_is_file :: bool
  check_numeric :: "pyval \<Rightarrow> bool"

text \<open>Python's \<open>var < -1 or var > 1\<close>: an order comparison of a non-number with an
  integer raises \<open>TypeError\<close>.\<close>

definition outside_unit :: "pyval \<Rightarrow> error + bool" where
  "outside_unit var =
     (case var of
        PyNum (PyInt i) \<Rightarrow> Inr (i < -1 \<or> i > 1)
      | PyNum (PyIndex i) \<Rightarrow> Inr (i < -1 \<or> i > 1)
      | PyNum (PyFloat (Fin x)) \<Rightarrow> Inr (x < -1 \<or> x > 1)
      | PyNum (PyFloat PInf) \<Rightarrow> Inr True
      | PyNum (PyFloat NInf) \<Rightarrow> Inr True
      | PyNum (PyFloat NaN) \<Rightarrow> Inr False
      | _ \<Rightarrow> Inl TypeError)"

definition has_suffix :: "string \<Rightarrow> string \<Rightarrow> bool" where
  "has_suffix sfx s = (length sfx \<le> length s \<and> drop (length s - length sfx) s = sfx)"

text \<open>
  \<open>__init__\<close>.  The logger warnings have no effect on the object and are left out; the
  defaults for \<open>units\<close>, \<open>winType\<close> and \<open>color\<close> are added to the keyword dictionary
  in the order of the source.
\<close>

definition set_default :: "string \<Rightarrow> pyval \<Rightarrow> (string \<times> pyval) list \<Rightarrow> (string \<times> pyval) list" where
  "set_default k v kw = (if map_of kw k = None then kw @ [(k, v)] else kw)"

definition DoubleSpinningWheel_init ::
  "environment \<Rightarrow> pyval \<Rightarrow> pyval \<Rightarrow> (string \<times> pyval) list \<Rightarrow> error + DoubleSpinningWheel" where
  "DoubleSpinningWheel_init env size' offset kwargs =
     (if \<not> psychopy_installed env then Inl ImportError
      else if map_of kwargs ''units'' \<noteq> None \<and> map_of kwargs ''units'' \<noteq> Some (PyStr ''norm'')
        then Inl ValueError
      else
        let kw = set_default ''color'' (PyTuple [PyNum (PyInt (-1)), PyNum (PyInt (-1)), PyNum (PyInt (-1))])
                   (set_default ''winType'' (PyStr ''pyglet'')
                     (set_default ''units'' (PyStr ''norm'') kwargs))
        in if \<not> (wheel_is_file env \<and> has_suffix ''.png'' (wheel_path env)) then Inl AssertionError
           else if \<not> check_numeric env size' then Inl TypeError
           else if \<not> check_numeric env offset then Inl TypeError
           else (case outside_unit size' of
                   Inl e \<Rightarrow> Inl e
                 | Inr _ \<Rightarrow>
                    (case outside_unit offset of
                       Inl e \<Rightarrow> Inl e
                     | Inr _ \<Rightarrow>
                        Inr \<lparr> dsw_winkwargs = kw, dsw_image = wheel_path env,
                              dsw_size = size', dsw_offset = offset,
                              dsw_speed = 0, dsw_status = 0, dsw_process = Unstarted \<rparr>)))"

text \<open>
  A method that raises leaves the object as it was at the \<open>raise\<close>: the result of a
  method is either the exception with the object at that point, or the object after the
  call.
\<close>

type_synonym 's raised = "error \<times> 's"

definition DoubleSpinningWheel_start :: "DoubleSpinningWheel \<Rightarrow> DoubleSpinningWheel raised + DoubleSpinningWheel" where
  "DoubleSpinningWheel_start self =
     (if dsw_status self = 1 then Inl (RuntimeError, self)
      else
        let self1 = self\<lparr>dsw_status := 1\<rparr>
        in case process_start (dsw_process self1) of
             Inl e \<Rightarrow> Inl (e, self1)
           | Inr p \<Rightarrow> Inr (self1\<lparr>dsw_process := p\<rparr>))"

definition DoubleSpinningWheel_stop :: "DoubleSpinningWheel \<Rightarrow> DoubleSpinningWheel raised + DoubleSpinningWheel" where
  "DoubleSpinningWheel_stop self =
     (if dsw_status self = 0 then Inl (RuntimeError, self)
      else
        let self1 = self\<lparr>dsw_status := 0\<rparr>
        in case process_join (dsw_process self1) of
             Inl e \<Rightarrow> Inl (e, self1)
           | Inr p \<Rightarrow> Inr (self1\<lparr>dsw_process := p\<rparr>))"

text \<open>The property \<open>active\<close>: \<open>bool(self._status.value)\<close>.\<close>

definition DoubleSpinningWheel_active :: "DoubleSpinningWheel \<Rightarrow> bool" where
  "DoubleSpinningWheel_active self = (cell_value (dsw_status self) \<noteq> 0)"

text \<open>The property \<open>image\<close> returns \<open>self._iamge\<close>; \<open>offset\<close> and \<open>size\<close> read the
  attributes that \<open>__init__\<close> has set.\<close>

definition DoubleSpinningWheel_image :: "DoubleSpinningWheel \<Rightarrow> error + pyval" where
  "DoubleSpinningWheel_image self = getattr self ''_iamge''"

definition DoubleSpinningWheel_offset :: "DoubleSpinningWheel \<Rightarrow> error + pyval" where
  "DoubleSpinningWheel_offset self = getattr self ''_offset''"

definition DoubleSpinningWheel_size :: "DoubleSpinningWheel \<Rightarrow> error + pyval" where
  "DoubleSpinningWheel_size self = getattr self ''_size''"

text \<open>
  Python's \<open>int(x)\<close> on a number: an integer is itself, a finite float is truncated
  towards zero, not-a-number raises \<open>ValueError\<close> and an infinity \<open>OverflowError\<close>.
\<close>

definition trunc :: "real \<Rightarrow> int" where
  "trunc x = (if 0 \<le> x then \<lfloor>x\<rfloor> else \<lceil>x\<rceil>)"

definition py_int :: "pynum \<Rightarrow> error + int" where
  "py_int v =
     (case v of
        PyInt i \<Rightarrow> Inr i
      | PyIndex i \<Rightarrow> Inr i
      | PyFloat (Fin x) \<Rightarrow> Inr (trunc x)
      | PyFloat NaN \<Rightarrow> Inl ValueError
      | PyFloat _ \<Rightarrow> Inl OverflowError)"

text \<open>Python's \<open>speed == int(speed)\<close> for a number and the integer made from it.\<close>

definition py_eq_int :: "pynum \<Rightarrow> int \<Rightarrow> bool" where
  "py_eq_int v i =
     (case v of
        PyInt j \<Rightarrow> j = i
      | PyIndex j \<Rightarrow> j = i
      | PyFloat (Fin x) \<Rightarrow> x = of_int i
      | PyFloat _ \<Rightarrow> False)"

text \<open>The setter of the property \<open>speed\<close>: the assertion, then the store into the cell.\<close>

definition DoubleSpinningWheel_speed_setter ::
  "DoubleSpinningWheel \<Rightarrow> pynum \<Rightarrow> DoubleSpinningWheel raised + DoubleSpinningWheel" where
  "DoubleSpinningWheel_speed_setter self speed =
     (case py_int speed of
        Inl e \<Rightarrow> Inl (e, self)
      | Inr i \<Rightarrow>
          if \<not> py_eq_int speed i then Inl (AssertionError, self)
          else (case cell_store speed of
                  Inl e \<Rightarrow> Inl (e, self)
                | Inr c \<Rightarrow> Inr (self\<lparr>dsw_speed := c\<rparr>)))"

text \<open>The getter of the property \<open>speed\<close>.\<close>

definition DoubleSpinningWheel_speed :: "DoubleSpinningWheel \<Rightarrow> int" where
  "DoubleSpinningWheel_speed self = cell_value (dsw_speed self)"

section \<open>Floating-point operations used by the control loop\<close>

text \<open>
  Subtraction, division and multiplication of two floats with the special values of IEEE
  arithmetic: a finite value divided by zero is an infinity of its sign, zero divided by
  zero is not-a-number, and not-a-number propagates.  numpy warns on such a division and
  returns the value; it does not raise.
\<close>

fun np_sub :: "npfloat \<Rightarrow> npfloat \<Rightarrow> npfloat" where
  "np_sub NaN _ = NaN"
| "np_sub _ NaN = NaN"
| "np_sub (Fin x) (Fin y) = Fin (x - y)"
| "np_sub (Fin x) PInf = NInf"
| "np_sub (Fin x) NInf = PInf"
| "np_sub PInf PInf = NaN"
| "np_sub PInf _ = PInf"
| "np_sub NInf NInf = NaN"
| "np_sub NInf _ = NInf"

fun np_div :: "npfloat \<Rightarrow> npfloat \<Rightarrow> npfloat" where
  "np_div NaN _ = NaN"
| "np_div _ NaN = NaN"
| "np_div (Fin x) (Fin y) =
     (if y \<noteq> 0 then Fin (x / y)
      else if x = 0 then NaN
      else if 0 < x then PInf else NInf)"
| "np_div (Fin x) _ = Fin 0"
| "np_div PInf (Fin y) = (if 0 \<le> y then PInf else NInf)"
| "np_div NInf (Fin y) = (if 0 \<le> y then NInf else PInf)"
| "np_div _ _ = NaN"

fun np_mul :: "npfloat \<Rightarrow> npfloat \<Rightarrow> npfloat" where
  "np_mul NaN _ = NaN"
| "np_mul _ NaN = NaN"
| "np_mul (Fin x) (Fin y) = Fin (x * y)"
| "np_mul (Fin x) PInf = (if x = 0 then NaN else if 0 < x then PInf else NInf)"
| "np_mul (Fin x) NInf = (if x = 0 then NaN else if 0 < x then NInf else PInf)"
| "np_mul PInf (Fin y) = (if y = 0 then NaN else if 0 < y then PInf else NInf)"
| "np_mul NInf (Fin y) = (if y = 0 then NaN else if 0 < y then NInf else PInf)"
| "np_mul PInf PInf = PInf"
| "np_mul NInf NInf = PInf"
| "np_mul _ _ = NInf"

text \<open>\<open>np.clip(a, lo, hi)\<close> is \<open>minimum(maximum(a, lo), hi)\<close>; not-a-number stays.\<close>

fun np_clip :: "npfloat \<Rightarrow> real \<Rightarrow> real \<Rightarrow> npfloat" where
  "np_clip NaN lo hi = NaN"
| "np_clip (Fin x) lo hi = Fin (min (max x lo) hi)"
| "np_clip PInf lo hi = Fin hi"
| "np_clip NInf lo hi = Fin (min lo hi)"

text \<open>
  \<open>np.percentile(a, q)\<close> with its default method (linear interpolation) on finite
  values: the array is sorted, the virtual index \<open>(n - 1) * q / 100\<close> is split into the
  index below it and the fraction \<open>gamma\<close>, and the two neighbours are interpolated,
  from the upper neighbour when \<open>gamma\<close> is at least one half.
\<close>

definition lerp :: "real \<Rightarrow> real \<Rightarrow> real \<Rightarrow> real" where
  "lerp a b t = (if 1 / 2 \<le> t then b - (b - a) * (1 - t) else a + (b - a) * t)"

definition linear_percentile :: "real list \<Rightarrow> real \<Rightarrow> real" where
  "linear_percentile xs q =
     (let arr = sort xs;
          n = length arr;
          virtual_index = (real n - 1) * (q / 100);
          previous_index = nat \<lfloor>virtual_index\<rfloor>;
          next_index = min (previous_index + 1) (n - 1);
          gamma = virtual_index - real previous_index
      in lerp (arr ! previous_index) (arr ! next_index) gamma)"

text \<open>
  The calibration buffer is an array of 100 floats that starts as all not-a-number
  (\<open>np.ones(100) * np.nan\<close>).  A cell is \<open>None\<close> while it still holds that initial
  value and \<open>Some m\<close> once the metric \<open>m\<close> has been written to it; metrics are taken to
  be finite.  A percentile outside \<open>[0, 100]\<close> raises \<open>ValueError\<close>; a percentile of an
  array that contains not-a-number (or of an empty one) is not-a-number.
\<close>

definition np_percentile :: "real option list \<Rightarrow> real \<Rightarrow> error + npfloat" where
  "np_percentile a q =
     (if q < 0 \<or> 100 < q then Inl ValueError
      else if a = [] \<or> None \<in> set a then Inr NaN
      else Inr (Fin (linear_percentile (map the a) q)))"

section \<open>The control loop: \<open>nfb_double_spinning_wheel.py\<close>\<close>

text \<open>
  What one pass of the \<open>while\<close> loop reads from outside: the clock when the loop
  condition is evaluated (line 62), the metric computed from the acquired window
  (lines 64 to 70), and the clock right after the metric has been stored, which is the
  moment at which line 77 reads it when the pass is a skipped one.
\<close>

record tick =
  t_cond :: real
  metric :: real
  t_stored :: real

text \<open>
  The calls the loop makes on the actuator, and the stores into the buffer, in the order
  in which they happen.  This log is not part of the program; it records the run.
\<close>

datatype event = Stored | CallStart | CallSpeed int | CallStop

record loop_state =
  metrics :: "real option list"
  inc :: int
  start :: real
  feedback :: DoubleSpinningWheel
  events :: "event list"

text \<open>Lines 73 and 74: \<open>metrics[inc % 100] = metric; inc += 1\<close>.\<close>

definition store_metric :: "real option list \<times> int \<Rightarrow> real \<Rightarrow> real option list \<times> int" where
  "store_metric b m = (case b of (buf, n) \<Rightarrow> (buf[nat (n mod 100) := Some m], n + 1))"

text \<open>Line 76: \<open>inc < metrics.size\<close>, the test that skips a pass.\<close>

definition warming_up :: "real option list \<times> int \<Rightarrow> bool" where
  "warming_up b = (case b of (buf, n) \<Rightarrow> n < int (length buf))"

text \<open>
  Lines 82 to 84, and the \<open>int(feedback_perc)\<close> of line 87.  The arithmetic on finite
  values is exact here: the rounding of 64-bit floats and their overflow to an infinity
  are not represented, so these two definitions carry only what is the same in both
  arithmetics, such as the outcome of a division by zero.
\<close>

definition feedback_perc :: "real option list \<Rightarrow> real \<Rightarrow> error + npfloat" where
  "feedback_perc buf m =
     (case np_percentile buf 5 of
        Inl e \<Rightarrow> Inl e
      | Inr min' \<Rightarrow>
         (case np_percentile buf 95 of
            Inl e \<Rightarrow> Inl e
          | Inr max' \<Rightarrow>
              Inr (np_mul (np_clip (np_div (np_sub (Fin m) min') (np_sub max' min')) 0 1) (Fin 100))))"

definition feedback_value :: "real option list \<Rightarrow> real \<Rightarrow> error + int" where
  "feedback_value buf m =
     (case feedback_perc buf m of
        Inl e \<Rightarrow> Inl e
      | Inr p \<Rightarrow> py_int (PyFloat p))"

text \<open>The three calls on the actuator, each recorded before it is made.\<close>

definition with_feedback ::
  "loop_state \<Rightarrow> DoubleSpinningWheel raised + DoubleSpinningWheel \<Rightarrow> loop_state raised + loop_state" where
  "with_feedback s r =
     (case r of
        Inl (e, fb) \<Rightarrow> Inl (e, s\<lparr>feedback := fb\<rparr>)
      | Inr fb \<Rightarrow> Inr (s\<lparr>feedback := fb\<rparr>))"

definition call_start :: "loop_state \<Rightarrow> loop_state raised + loop_state" where
  "call_start s =
     with_feedback (s\<lparr>events := events s @ [CallStart]\<rparr>) (DoubleSpinningWheel_start (feedback s))"

definition call_speed :: "loop_state \<Rightarrow> int \<Rightarrow> loop_state raised + loop_state" where
  "call_speed s v =
     with_feedback (s\<lparr>events := events s @ [CallSpeed v]\<rparr>)
       (DoubleSpinningWheel_speed_setter (feedback s) (PyInt v))"

definition call_stop :: "loop_state \<Rightarrow> loop_state raised + loop_state" where
  "call_stop s =
     with_feedback (s\<lparr>events := events s @ [CallStop]\<rparr>) (DoubleSpinningWheel_stop (feedback s))"

text \<open>The body of the loop, lines 63 to 87.\<close>

definition loop_body :: "tick \<Rightarrow> loop_state \<Rightarrow> loop_state raised + loop_state" where
  "loop_body tk s =
     (let b = store_metric (metrics s, inc s) (metric tk);
          s1 = s\<lparr>metrics := fst b, inc := snd b, events := events s @ [Stored]\<rparr>
      in if warming_up b then Inr (s1\<lparr>start := t_stored tk\<rparr>)
         else
           case (if inc s1 = int (length (metrics s1)) then call_start s1 else Inr s1) of
             Inl r \<Rightarrow> Inl r
           | Inr s2 \<Rightarrow>
              (case feedback_value (metrics s2) (metric tk) of
                 Inl e \<Rightarrow> Inl (e, s2)
               | Inr v \<Rightarrow> call_speed s2 v))"

text \<open>
  A run of the loop over the passes the surroundings provide.  \<open>Exited\<close>: the loop
  condition was false; \<open>Raised\<close>: an exception left the function; \<open>Pending\<close>: the loop
  is still running after the last pass described; \<open>Returned\<close>: the function has
  returned.
\<close>

datatype outcome =
    Exited loop_state
  | Raised error loop_state
  | Pending loop_state
  | Returned loop_state

fun outcome_state :: "outcome \<Rightarrow> loop_state" where
  "outcome_state (Exited s) = s"
| "outcome_state (Raised e s) = s"
| "outcome_state (Pending s) = s"
| "outcome_state (Returned s) = s"

fun main_loop :: "real \<Rightarrow> tick list \<Rightarrow> loop_state \<Rightarrow> outcome" where
  "main_loop duration [] s = Pending s"
| "main_loop duration (tk # tks) s =
     (if t_cond tk - start s \<le> duration then
        (case loop_body tk s of
           Inl (e, s') \<Rightarrow> Raised e s'
         | Inr s' \<Rightarrow> main_loop duration tks s')
      else Exited s)"

text \<open>Lines 47 to 49 and 61: the state in which the loop is entered.\<close>

definition initial_state :: "real \<Rightarrow> DoubleSpinningWheel \<Rightarrow> loop_state" where
  "initial_state t0 fb =
     \<lparr> metrics = replicate 100 None, inc = 0, start = t0, feedback = fb, events = [] \<rparr>"

text \<open>
  Lines 47 to 90 for a handle \<open>fb\<close> that the constructor has returned: the loop, then the
  call of \<open>stop\<close> of line 90, which is reached when the loop condition has become false.
\<close>

definition control_loop :: "real \<Rightarrow> real \<Rightarrow> tick list \<Rightarrow> DoubleSpinningWheel \<Rightarrow> outcome" where
  "control_loop duration t0 ticks fb =
     (case main_loop duration ticks (initial_state t0 fb) of
        Exited s \<Rightarrow>
          (case call_stop s of
             Inl (e, s') \<Rightarrow> Raised e s'
           | Inr s' \<Rightarrow> Returned s')
      | other \<Rightarrow> other)"

text \<open>
  The function \<open>nfb_double_spinning_wheel\<close>, lines 33 to 90.  The two assertions on
  \<open>winsize\<close> and \<open>duration\<close>; the constructor call of line 45 with \<open>size=(800, 800)\<close>,
  the default offset and no keyword arguments; the assertion that exactly two of the
  channel names of the stream are \<open>O1\<close> or \<open>O2\<close>; then lines 47 to 90.  The stream
  receiver, the logger and \<open>time.sleep\<close> are taken to return.  The result is the
  exception that ended the function before line 61, or the outcome of lines 61 to 90.
\<close>

definition nfb_double_spinning_wheel ::
  "environment \<Rightarrow> string \<Rightarrow> real \<Rightarrow> real \<Rightarrow> string list \<Rightarrow> real \<Rightarrow> tick list \<Rightarrow> error + outcome" where
  "nfb_double_spinning_wheel env stream_name winsize duration ch_names t0 ticks =
     (if \<not> 0 < winsize then Inl AssertionError
      else if \<not> 0 < duration then Inl AssertionError
      else
        case DoubleSpinningWheel_init env (PyTuple [PyNum (PyInt 800), PyNum (PyInt 800)])
               (PyNum (PyFloat (Fin (1 / 2)))) [] of
          Inl e \<Rightarrow> Inl e
        | Inr fb \<Rightarrow>
            if length (filter (\<lambda>ch. ch = ''O1'' \<or> ch = ''O2'') ch_names) \<noteq> 2
            then Inl AssertionError
            else Inr (control_loop duration t0 ticks fb))"

text \<open>The stores and the calls on the actuator that a call of the function has made.\<close>

definition run_events :: "error + outcome \<Rightarrow> event list" where
  "run_events r = (case r of Inl e \<Rightarrow> [] | Inr out \<Rightarrow> events (outcome_state out))"

text \<open>The buffer and counter after a sequence of metrics has been stored.\<close>

definition stored :: "real list \<Rightarrow> real option list \<times> int" where
  "stored ms = fold (\<lambda>m b. store_metric b m) ms (replicate 100 None, 0)"

section \<open>Concrete inputs\<close>

text \<open>
  An environment in which the constructor succeeds, and the handle it returns for the
  default arguments \<open>size=0.4, offset=0.5\<close> and no keyword arguments.
\<close>

definition default_environment :: environment where
  "default_environment =
     \<lparr> psychopy_installed = True, wheel_path = ''demo_realtime/feedbacks/resources/wheel.png'',
       wheel_is_file = True,
       check_numeric = (\<lambda>v. case v of PyNum n \<Rightarrow> True | _ \<Rightarrow> False) \<rparr>"

definition fresh_wheel :: DoubleSpinningWheel where
  "fresh_wheel =
     \<lparr> dsw_winkwargs =
         [(''units'', PyStr ''norm''), (''winType'', PyStr ''pyglet''),
          (''color'', PyTuple [PyNum (PyInt (-1)), PyNum (PyInt (-1)), PyNum (PyInt (-1))])],
       dsw_image = ''demo_realtime/feedbacks/resources/wheel.png'',
       dsw_size = PyNum (PyFloat (Fin (2 / 5))), dsw_offset = PyNum (PyFloat (Fin (1 / 2))),
       dsw_speed = 0, dsw_status = 0, dsw_process = Unstarted \<rparr>"

text \<open>
  A run in which every pass takes three seconds (the acquisition of a window blocks for
  that long) and the clock starts at 0: pass \<open>k\<close>, counted from 0, evaluates the loop
  condition at \<open>3 k\<close>, computes the metric \<open>f k\<close> and has stored it at \<open>3 k + 3\<close>.
\<close>

definition ticks_of :: "(nat \<Rightarrow> real) \<Rightarrow> nat \<Rightarrow> tick list" where
  "ticks_of f n =
     map (\<lambda>k. \<lparr> t_cond = 3 * real k, metric = f k, t_stored = 3 * real k + 3 \<rparr>) [0..<n]"

text \<open>Two metric sequences: one that rises by one each pass, and a constant one.\<close>

definition ramp :: "nat \<Rightarrow> real" where
  "ramp k = real k + 1"

definition flat :: "nat \<Rightarrow> real" where
  "flat k = 5"

text \<open>The channel names of a stream that has the two occipital electrodes.\<close>

definition occipital_stream :: "string list" where
  "occipital_stream = [''Fp1'', ''Cz'', ''O1'', ''O2'']"

text \<open>The state a call or a pass of the loop ends in, raised or not.\<close>

fun raised_state :: "loop_state raised + loop_state \<Rightarrow> loop_state" where
  "raised_state (Inl (e, s)) = s"
| "raised_state (Inr s) = s"

text \<open>Whether the loop has been left through its condition.\<close>

fun exited :: "outcome \<Rightarrow> bool" where
  "exited (Exited s) = True"
| "exited _ = False"

text \<open>
  What holds of the state between two passes when the loop was entered with a handle that
  the constructor has returned: the log counts the stores; below 100 stores nothing but
  stores has happened and the handle is untouched; from 100 stores on \<open>start\<close> has been
  called once, right after the hundredth store, and the handle is running.
\<close>

definition run_invariant :: "loop_state \<Rightarrow> bool" where
  "run_invariant s \<longleftrightarrow>
     length (metrics s) = 100 \<and> 0 \<le> inc s
     \<and> int (count_list (events s) Stored) = inc s
     \<and> CallStop \<notin> set (events s)
     \<and> (if inc s < 100
         then events s = replicate (nat (inc s)) Stored
              \<and> dsw_status (feedback s) = 0 \<and> dsw_process (feedback s) = Unstarted
         else (\<exists>post. events s = replicate 100 Stored @ CallStart # post \<and> CallStart \<notin> set post)
              \<and> dsw_status (feedback s) = 1 \<and> dsw_process (feedback s) = Spawned)"

section \<open>Properties\<close>

subsection \<open>Cells and the constructor\<close>

lemma cell_value_eq_iff: "cell_value c = cell_value d \<longleftrightarrow> c = d"
  by (auto simp: cell_value_def intro: signed_word_eqI)

lemma cell_value_0: "cell_value 0 = 0" by (simp add: cell_value_def)

lemma cell_value_1: "cell_value 1 = 1" by (simp add: cell_value_def)

lemma cell_reads_1: "cell_value c = 1 \<longleftrightarrow> c = 1"
  using cell_value_eq_iff [of c 1] by (simp add: cell_value_1)

lemma cell_reads_0: "cell_value c = 0 \<longleftrightarrow> c = 0"
  using cell_value_eq_iff [of c 0] by (simp add: cell_value_0)

lemma cell_value_small: "- (2^31) \<le> i \<Longrightarrow> i < 2^31 \<Longrightarrow> cell_value (word_of_int i) = i"
  by (simp add: cell_value_def sint_sbintrunc' signed_take_bit_int_eq_self)

lemma init_fresh:
  "DoubleSpinningWheel_init env sz off kw = Inr self \<Longrightarrow>
     dsw_status self = 0 \<and> dsw_speed self = 0 \<and> dsw_process self = Unstarted \<and> dsw_image self = wheel_path env"
  by (auto simp: DoubleSpinningWheel_init_def Let_def split: if_splits sum.splits)

lemma init_default:
  "DoubleSpinningWheel_init default_environment (PyNum (PyFloat (Fin (2 / 5)))) (PyNum (PyFloat (Fin (1 / 2)))) []
     = Inr fresh_wheel"
  by (simp add: DoubleSpinningWheel_init_def default_environment_def fresh_wheel_def Let_def
        set_default_def has_suffix_def outside_unit_def)

lemma fresh_wheel_fresh: "dsw_status fresh_wheel = 0 \<and> dsw_process fresh_wheel = Unstarted"
  by (simp add: fresh_wheel_def)

text \<open>
  A tuple as \<open>size\<close> is refused by the constructor, by \<open>_check_type\<close> or else by the
  comparison with \<open>-1\<close> of line 83.
\<close>

lemma init_tuple_size:
  "\<exists>e. DoubleSpinningWheel_init env (PyTuple [PyNum (PyInt 800), PyNum (PyInt 800)]) off kw = Inl e"
  by (simp add: DoubleSpinningWheel_init_def Let_def outside_unit_def)

subsection \<open>The calibration buffer\<close>

lemma stored_snoc: "stored (ms @ [m]) = store_metric (stored ms) m"
  by (simp add: stored_def)

lemma stored_Nil: "stored [] = (replicate 100 None, 0)"
  by (simp add: stored_def)

lemma stored_count_length:
  "snd (stored ms) = int (length ms) \<and> length (fst (stored ms)) = 100"
  by (induction ms rule: rev_induct)
     (auto simp: stored_Nil stored_snoc store_metric_def split: prod.splits)

lemma stored_recent:
  "k < length ms \<Longrightarrow> length ms \<le> k + 100 \<Longrightarrow> fst (stored ms) ! (k mod 100) = Some (ms ! k)"
proof (induction ms rule: rev_induct)
  case Nil
  then show ?case by simp
next
  case (snoc m ms)
  obtain buf n where b: "stored ms = (buf, n)" by (cases "stored ms")
  from stored_count_length [of ms] b have n: "n = int (length ms)" and len: "length buf = 100"
    by simp_all
  have upd: "fst (stored (ms @ [m])) = buf[length ms mod 100 := Some m]"
    by (simp add: stored_snoc b store_metric_def n nat_mod_distrib)
  show ?case
  proof (cases "k = length ms")
    case True
    then show ?thesis by (simp add: upd len)
  next
    case False
    with snoc.prems have k: "k < length ms" "length ms \<le> k + 100" "length ms < k + 100" by simp_all
    have ne: "k mod 100 \<noteq> length ms mod 100"
    proof
      assume "k mod 100 = length ms mod 100"
      then have "100 dvd length ms - k"
        using k(1) by (metis mod_eq_dvd_iff_nat less_imp_le_nat)
      with k show False by (auto dest: dvd_imp_le)
    qed
    from snoc.IH [OF k(1) k(2)] b have "buf ! (k mod 100) = Some (ms ! k)" by simp
    with ne k(1) show ?thesis by (simp add: upd nth_append)
  qed
qed

lemma stored_rotate:
  assumes "100 \<le> length ms"
  shows "rotate (length ms mod 100) (fst (stored ms)) = map Some (drop (length ms - 100) ms)"
proof (rule nth_equalityI)
  show "length (rotate (length ms mod 100) (fst (stored ms))) = length (map Some (drop (length ms - 100) ms))"
    using assms stored_count_length [of ms] by simp
next
  fix j assume "j < length (rotate (length ms mod 100) (fst (stored ms)))"
  then have j: "j < 100" using stored_count_length [of ms] by simp
  let ?k = "length ms - 100 + j"
  have k: "?k < length ms" "length ms \<le> ?k + 100" using assms j by simp_all
  have "(length ms mod 100 + j) mod 100 = ?k mod 100"
  proof -
    have "?k + 100 = length ms + j" using assms by simp
    then have "(?k + 100) mod 100 = (length ms + j) mod 100" by simp
    then show ?thesis by (simp add: mod_add_left_eq)
  qed
  then have "rotate (length ms mod 100) (fst (stored ms)) ! j = fst (stored ms) ! (?k mod 100)"
    using j stored_count_length [of ms] by (simp add: nth_rotate)
  also have "\<dots> = Some (ms ! ?k)" by (rule stored_recent [OF k])
  also have "\<dots> = map Some (drop (length ms - 100) ms) ! j"
    using assms j by simp
  finally show "rotate (length ms mod 100) (fst (stored ms)) ! j = map Some (drop (length ms - 100) ms) ! j" .
qed

lemma stored_100: "length ms = 100 \<Longrightarrow> fst (stored ms) = map Some ms"
  using stored_rotate [of ms] by simp

lemma mset_rotate_eq: "mset (rotate n xs) = mset xs"
proof -
  have "mset (rotate n xs) = mset (drop (n mod length xs) xs) + mset (take (n mod length xs) xs)"
    by (simp add: rotate_drop_take)
  also have "\<dots> = mset (take (n mod length xs) xs) + mset (drop (n mod length xs) xs)"
    by (rule union_commute)
  also have "\<dots> = mset (take (n mod length xs) xs @ drop (n mod length xs) xs)"
    by (rule mset_append [symmetric])
  also have "\<dots> = mset xs"
    by (simp only: append_take_drop_id)
  finally show ?thesis .
qed

lemma stored_mset:
  assumes "100 \<le> length ms"
  shows "mset (fst (stored ms)) = mset (map Some (drop (length ms - 100) ms))"
proof -
  have "mset (fst (stored ms)) = mset (rotate (length ms mod 100) (fst (stored ms)))"
    by (simp only: mset_rotate_eq)
  then show ?thesis by (simp only: stored_rotate [OF assms])
qed

lemma warming_up_stored: "warming_up (stored ms) \<longleftrightarrow> length ms < 100"
proof -
  obtain buf n where b: "stored ms = (buf, n)" by (cases "stored ms")
  from stored_count_length [of ms] b show ?thesis by (auto simp: warming_up_def)
qed

text \<open>
  Claim C2.  After any sequence \<open>ms\<close> of stores into the initial buffer the counter
  equals the number of stores; the skip test of line 76 is false (the buffer counts as
  full) exactly when at least 100 values have been stored; from then on the buffer holds
  the 100 most recently stored values, the value stored as number \<open>k\<close> sitting at index
  \<open>k mod 100\<close>; and the next store lands at index \<open>length ms mod 100\<close> and adds one to
  the counter.
\<close>

theorem ring_buffer_holds_recent:
  "snd (stored ms) = int (length ms)
   \<and> (\<not> warming_up (stored ms) \<longleftrightarrow> 100 \<le> length ms)
   \<and> (100 \<le> length ms \<longrightarrow>
        rotate (length ms mod 100) (fst (stored ms)) = map Some (drop (length ms - 100) ms)
        \<and> mset (fst (stored ms)) = mset (map Some (drop (length ms - 100) ms)))
   \<and> store_metric (stored ms) m = ((fst (stored ms))[length ms mod 100 := Some m], int (length ms) + 1)"
proof -
  obtain buf n where b: "stored ms = (buf, n)" by (cases "stored ms")
  from stored_count_length [of ms] b have n: "n = int (length ms)" and len: "length buf = 100"
    by simp_all
  have 1: "\<not> warming_up (stored ms) \<longleftrightarrow> 100 \<le> length ms"
    by (auto simp: b warming_up_def n len)
  have 2: "store_metric (stored ms) m = ((fst (stored ms))[length ms mod 100 := Some m], int (length ms) + 1)"
    by (simp add: b store_metric_def n nat_mod_distrib)
  from 1 2 stored_count_length [of ms] stored_rotate [of ms] stored_mset [of ms]
  show ?thesis by blast
qed

theorem ring_buffer_holds_recent_witness:
  "100 \<le> length (map real [0..<101])
   \<and> mset (fst (stored (map real [0..<101]))) = mset (map Some (drop 1 (map real [0..<101])))
   \<and> \<not> warming_up (stored (map real [0..<101]))"
  using ring_buffer_holds_recent [of "map real [0..<101]" 0] by simp

subsection \<open>Percentiles\<close>

lemma percentile_5:
  "length xs = 100 \<Longrightarrow> linear_percentile xs 5 = lerp (sort xs ! 4) (sort xs ! 5) (19/20)"
  by (simp add: linear_percentile_def Let_def)

lemma percentile_95:
  "length xs = 100 \<Longrightarrow> linear_percentile xs 95 = lerp (sort xs ! 94) (sort xs ! 95) (1/20)"
  by (simp add: linear_percentile_def Let_def)

lemma lerp_between:
  assumes "a \<le> b" "0 \<le> t" "t \<le> 1"
  shows "a \<le> lerp a b t \<and> lerp a b t \<le> b"
proof -
  have 1: "0 \<le> (b - a) * t" and 2: "0 \<le> (b - a) * (1 - t)"
    using assms by simp_all
  have 3: "(b - a) * t \<le> b - a"
    using assms by (intro mult_left_le) simp_all
  have 4: "(b - a) * (1 - t) \<le> b - a"
    using assms by (intro mult_left_le) simp_all
  from 1 2 3 4 show ?thesis by (simp add: lerp_def)
qed

lemma lerp_same: "lerp a a t = a"
  by (simp add: lerp_def)

lemma percentile_order:
  assumes "length xs = 100"
  shows "linear_percentile xs 5 \<le> linear_percentile xs 95"
proof -
  let ?s = "sort xs"
  have s: "sorted ?s" "length ?s = 100" using assms by simp_all
  have a: "?s ! 4 \<le> ?s ! 5" and b: "?s ! 5 \<le> ?s ! 94" and c: "?s ! 94 \<le> ?s ! 95"
    using s by (simp_all add: sorted_nth_mono)
  from lerp_between [OF a, of "19/20"] have "lerp (?s ! 4) (?s ! 5) (19/20) \<le> ?s ! 5" by simp
  moreover from lerp_between [OF c, of "1/20"] have "?s ! 94 \<le> lerp (?s ! 94) (?s ! 95) (1/20)" by simp
  ultimately show ?thesis using b by (simp add: percentile_5 percentile_95 assms)
qed

lemma percentile_flat:
  assumes "length xs = 100" "\<forall>x\<in>set xs. x = v"
  shows "linear_percentile xs 5 = v \<and> linear_percentile xs 95 = v"
proof -
  have "\<And>i. i < 100 \<Longrightarrow> sort xs ! i = v"
  proof -
    fix i :: nat assume "i < 100"
    then have "sort xs ! i \<in> set (sort xs)" using assms(1) by (simp del: set_sort)
    then show "sort xs ! i = v" using assms(2) by simp
  qed
  then show ?thesis by (simp add: percentile_5 percentile_95 assms(1) lerp_same)
qed

lemma np_percentile_full:
  "xs \<noteq> [] \<Longrightarrow> 0 \<le> q \<Longrightarrow> q \<le> 100 \<Longrightarrow> np_percentile (map Some xs) q = Inr (Fin (linear_percentile xs q))"
  by (auto simp: np_percentile_def comp_def)

lemma percentile_flat_run:
  "linear_percentile (map flat [0..<100]) 5 = 5 \<and> linear_percentile (map flat [0..<100]) 95 = 5"
  by (rule percentile_flat) (auto simp: flat_def)

text \<open>
  Claim C7.  For a filled buffer (100 stored values) the 5th and the 95th percentile are
  finite, the 5th is at most the 95th, and both equal \<open>v\<close> when every stored value is
  \<open>v\<close>.
\<close>

theorem percentile_range_ordered:
  "length xs = 100 \<Longrightarrow>
     np_percentile (map Some xs) 5 = Inr (Fin (linear_percentile xs 5))
     \<and> np_percentile (map Some xs) 95 = Inr (Fin (linear_percentile xs 95))
     \<and> linear_percentile xs 5 \<le> linear_percentile xs 95
     \<and> ((\<forall>x\<in>set xs. x = v) \<longrightarrow> linear_percentile xs 5 = v \<and> linear_percentile xs 95 = v)"
  using percentile_order [of xs] percentile_flat [of xs v] np_percentile_full [of xs 5] np_percentile_full [of xs 95]
  by (cases "xs = []") auto

theorem percentile_range_ordered_witness:
  "length (replicate 100 (5::real)) = 100
   \<and> np_percentile (map Some (replicate 100 5)) 5 = Inr (Fin 5)
   \<and> np_percentile (map Some (replicate 100 5)) 95 = Inr (Fin 5)"
  using percentile_range_ordered [of "replicate 100 5" 5] by simp

subsection \<open>The actuator handle\<close>

lemma start_RuntimeError_iff:
  "(\<exists>fb. DoubleSpinningWheel_start self = Inl (RuntimeError, fb)) \<longleftrightarrow> cell_value (dsw_status self) = 1"
  by (auto simp: DoubleSpinningWheel_start_def Let_def process_start_def cell_reads_1 split: process.splits)

lemma stop_RuntimeError_iff:
  "(\<exists>fb. DoubleSpinningWheel_stop self = Inl (RuntimeError, fb)) \<longleftrightarrow> cell_value (dsw_status self) = 0"
  by (auto simp: DoubleSpinningWheel_stop_def Let_def process_join_def cell_reads_0 split: process.splits)

lemma start_succeeds_iff:
  "(\<exists>fb. DoubleSpinningWheel_start self = Inr fb) \<longleftrightarrow> cell_value (dsw_status self) \<noteq> 1 \<and> dsw_process self = Unstarted"
  by (auto simp: DoubleSpinningWheel_start_def Let_def process_start_def cell_reads_1 split: process.splits)

lemma start_fresh:
  "dsw_status self = 0 \<Longrightarrow> dsw_process self = Unstarted \<Longrightarrow>
     DoubleSpinningWheel_start self = Inr (self\<lparr>dsw_status := 1, dsw_process := Spawned\<rparr>)"
  by (simp add: DoubleSpinningWheel_start_def Let_def process_start_def)

lemma stop_running:
  "dsw_status self = 1 \<Longrightarrow> dsw_process self = Spawned \<Longrightarrow>
     DoubleSpinningWheel_stop self = Inr (self\<lparr>dsw_status := 0\<rparr>)"
  by (simp add: DoubleSpinningWheel_stop_def Let_def process_join_def)

lemma stop_stopped:
  "dsw_status self = 0 \<Longrightarrow> DoubleSpinningWheel_stop self = Inl (RuntimeError, self)"
  by (simp add: DoubleSpinningWheel_stop_def)

text \<open>
  Claim C4, as the code has it.  \<open>start\<close> raises its \<open>RuntimeError\<close> exactly when the
  status cell reads 1, and it succeeds exactly when the cell does not read 1 and the
  process of the handle has not been started before.  \<open>stop\<close> raises its
  \<open>RuntimeError\<close> exactly when the status cell reads 0.  After a successful \<open>start\<close> a
  second \<open>start\<close> raises, \<open>stop\<close> succeeds and leaves \<open>active\<close> false, and a
  \<open>start\<close> after that \<open>stop\<close> passes the guard, sets the status to 1 and fails in
  \<open>Process.start\<close> with \<open>AssertionError\<close>.  A \<open>stop\<close> on a handle that the
  constructor has just returned raises.
\<close>

theorem start_stop_guards:
  "((\<exists>fb. DoubleSpinningWheel_start self = Inl (RuntimeError, fb)) \<longleftrightarrow> cell_value (dsw_status self) = 1)
   \<and> ((\<exists>fb. DoubleSpinningWheel_start self = Inr fb) \<longleftrightarrow>
          cell_value (dsw_status self) \<noteq> 1 \<and> dsw_process self = Unstarted)
   \<and> ((\<exists>fb. DoubleSpinningWheel_stop self = Inl (RuntimeError, fb)) \<longleftrightarrow> cell_value (dsw_status self) = 0)
   \<and> (DoubleSpinningWheel_start self = Inr self1 \<longrightarrow>
          DoubleSpinningWheel_start self1 = Inl (RuntimeError, self1)
          \<and> DoubleSpinningWheel_stop self1 = Inr (self1\<lparr>dsw_status := 0\<rparr>)
          \<and> \<not> DoubleSpinningWheel_active (self1\<lparr>dsw_status := 0\<rparr>)
          \<and> DoubleSpinningWheel_start (self1\<lparr>dsw_status := 0\<rparr>) = Inl (AssertionError, self1))
   \<and> (DoubleSpinningWheel_init env sz off kw = Inr self \<longrightarrow>
          DoubleSpinningWheel_stop self = Inl (RuntimeError, self))"
proof -
  have a: "DoubleSpinningWheel_start self = Inr self1 \<longrightarrow>
          DoubleSpinningWheel_start self1 = Inl (RuntimeError, self1)
          \<and> DoubleSpinningWheel_stop self1 = Inr (self1\<lparr>dsw_status := 0\<rparr>)
          \<and> \<not> DoubleSpinningWheel_active (self1\<lparr>dsw_status := 0\<rparr>)
          \<and> DoubleSpinningWheel_start (self1\<lparr>dsw_status := 0\<rparr>) = Inl (AssertionError, self1)"
    by (auto simp: DoubleSpinningWheel_start_def DoubleSpinningWheel_stop_def Let_def
          process_start_def process_join_def DoubleSpinningWheel_active_def cell_value_0
          split: process.splits if_splits)
  have b: "DoubleSpinningWheel_init env sz off kw = Inr self \<longrightarrow>
          DoubleSpinningWheel_stop self = Inl (RuntimeError, self)"
    using init_fresh [of env sz off kw self] by (simp add: stop_stopped)
  from a b start_RuntimeError_iff [of self] start_succeeds_iff [of self] stop_RuntimeError_iff [of self]
  show ?thesis by blast
qed

theorem start_stop_guards_witness:
  "DoubleSpinningWheel_start fresh_wheel = Inr (fresh_wheel\<lparr>dsw_status := 1, dsw_process := Spawned\<rparr>)
   \<and> DoubleSpinningWheel_start (fresh_wheel\<lparr>dsw_status := 1, dsw_process := Spawned\<rparr>)
       = Inl (RuntimeError, fresh_wheel\<lparr>dsw_status := 1, dsw_process := Spawned\<rparr>)
   \<and> DoubleSpinningWheel_stop fresh_wheel = Inl (RuntimeError, fresh_wheel)"
  using start_stop_guards [of fresh_wheel "fresh_wheel\<lparr>dsw_status := 1, dsw_process := Spawned\<rparr>" default_environment
          "PyNum (PyFloat (Fin (2 / 5)))" "PyNum (PyFloat (Fin (1 / 2)))" "[]"]
    init_default start_fresh [of fresh_wheel]
  by (simp add: fresh_wheel_def)

text \<open>
  Claim C4 as stated fails for a handle that has been started and stopped: its status cell
  reads 0, and \<open>start\<close> raises all the same.
\<close>

theorem restart_after_stop_raises:
  "DoubleSpinningWheel_start fresh_wheel = Inr (fresh_wheel\<lparr>dsw_status := 1, dsw_process := Spawned\<rparr>)
   \<and> DoubleSpinningWheel_stop (fresh_wheel\<lparr>dsw_status := 1, dsw_process := Spawned\<rparr>)
       = Inr (fresh_wheel\<lparr>dsw_status := 0, dsw_process := Spawned\<rparr>)
   \<and> cell_value (dsw_status (fresh_wheel\<lparr>dsw_status := 0, dsw_process := Spawned\<rparr>)) = 0
   \<and> DoubleSpinningWheel_start (fresh_wheel\<lparr>dsw_status := 0, dsw_process := Spawned\<rparr>)
       = Inl (AssertionError, fresh_wheel\<lparr>dsw_status := 1, dsw_process := Spawned\<rparr>)"
  by (simp add: fresh_wheel_def DoubleSpinningWheel_start_def DoubleSpinningWheel_stop_def Let_def
        process_start_def process_join_def cell_value_0)

lemma trunc_of_int: "trunc (of_int i) = i"
  by (simp add: trunc_def)

lemma py_eq_int_Fin: "py_eq_int (PyFloat (Fin x)) (trunc x) \<longleftrightarrow> x \<in> \<int>"
proof
  assume "py_eq_int (PyFloat (Fin x)) (trunc x)"
  then have "x = of_int (trunc x)" by (simp add: py_eq_int_def)
  then show "x \<in> \<int>" by (metis Ints_of_int)
next
  assume "x \<in> \<int>"
  then obtain i where "x = of_int i" by (auto elim: Ints_cases)
  then show "py_eq_int (PyFloat (Fin x)) (trunc x)" by (simp add: py_eq_int_def trunc_of_int)
qed

text \<open>
  Claim C9, as the code has it.  For an integer \<open>i\<close>, handed over as a Python \<open>int\<close> or
  as an object that implements \<open>__index__\<close>, the setter raises nothing and stores the low
  32 bits of \<open>i\<close>, so the cell reads \<open>i\<close> back when \<open>i\<close> fits a signed 32-bit integer;
  the status cell plays no part.  A float always raises: one that is finite and not
  integral fails the assertion; an integral one passes it and is refused by the store into
  the integer cell; not-a-number and the infinities fail in \<open>int\<close>.
\<close>

theorem speed_setter_stores_low_bits:
  "DoubleSpinningWheel_speed_setter self (PyInt i) = Inr (self\<lparr>dsw_speed := word_of_int i\<rparr>)
   \<and> DoubleSpinningWheel_speed_setter self (PyIndex i) = Inr (self\<lparr>dsw_speed := word_of_int i\<rparr>)
   \<and> DoubleSpinningWheel_speed (self\<lparr>dsw_speed := word_of_int i\<rparr>) = (i + 2 ^ 31) mod 2 ^ 32 - 2 ^ 31
   \<and> (- (2 ^ 31) \<le> i \<and> i < 2 ^ 31 \<longrightarrow> DoubleSpinningWheel_speed (self\<lparr>dsw_speed := word_of_int i\<rparr>) = i)
   \<and> dsw_status (self\<lparr>dsw_speed := word_of_int i\<rparr>) = dsw_status self
   \<and> (x \<notin> \<int> \<longrightarrow> DoubleSpinningWheel_speed_setter self (PyFloat (Fin x)) = Inl (AssertionError, self))
   \<and> (x \<in> \<int> \<longrightarrow> DoubleSpinningWheel_speed_setter self (PyFloat (Fin x)) = Inl (TypeError, self))
   \<and> DoubleSpinningWheel_speed_setter self (PyFloat NaN) = Inl (ValueError, self)
   \<and> DoubleSpinningWheel_speed_setter self (PyFloat PInf) = Inl (OverflowError, self)
   \<and> DoubleSpinningWheel_speed_setter self (PyFloat NInf) = Inl (OverflowError, self)"
proof -
  have 1: "DoubleSpinningWheel_speed (self\<lparr>dsw_speed := word_of_int i\<rparr>) = (i + 2 ^ 31) mod 2 ^ 32 - 2 ^ 31"
    by (simp add: DoubleSpinningWheel_speed_def cell_value_def sint_sbintrunc' signed_take_bit_eq_take_bit_shift take_bit_eq_mod)
  have 2: "- (2 ^ 31) \<le> i \<and> i < 2 ^ 31 \<longrightarrow> DoubleSpinningWheel_speed (self\<lparr>dsw_speed := word_of_int i\<rparr>) = i"
    by (simp add: DoubleSpinningWheel_speed_def cell_value_small)
  have 3: "x \<notin> \<int> \<longrightarrow> DoubleSpinningWheel_speed_setter self (PyFloat (Fin x)) = Inl (AssertionError, self)"
    using py_eq_int_Fin [of x] by (simp add: DoubleSpinningWheel_speed_setter_def py_int_def)
  have 4: "x \<in> \<int> \<longrightarrow> DoubleSpinningWheel_speed_setter self (PyFloat (Fin x)) = Inl (TypeError, self)"
    using py_eq_int_Fin [of x] by (simp add: DoubleSpinningWheel_speed_setter_def py_int_def cell_store_def)
  from 1 2 3 4 show ?thesis
    by (simp add: DoubleSpinningWheel_speed_setter_def py_int_def py_eq_int_def cell_store_def)
qed

theorem speed_setter_stores_low_bits_witness:
  "- (2 ^ 31) \<le> (42::int) \<and> (42::int) < 2 ^ 31 \<and> (5 / 2 :: real) \<notin> \<int> \<and> (3::real) \<in> \<int>
   \<and> DoubleSpinningWheel_speed_setter fresh_wheel (PyInt 42) = Inr (fresh_wheel\<lparr>dsw_speed := 42\<rparr>)
   \<and> DoubleSpinningWheel_speed_setter fresh_wheel (PyIndex 42) = Inr (fresh_wheel\<lparr>dsw_speed := 42\<rparr>)
   \<and> DoubleSpinningWheel_speed (fresh_wheel\<lparr>dsw_speed := 42\<rparr>) = 42
   \<and> DoubleSpinningWheel_speed_setter fresh_wheel (PyFloat (Fin (5 / 2))) = Inl (AssertionError, fresh_wheel)
   \<and> DoubleSpinningWheel_speed_setter fresh_wheel (PyFloat (Fin 3)) = Inl (TypeError, fresh_wheel)"
proof -
  have a: "(5 / 2 :: real) \<notin> \<int>"
  proof
    assume "(5 / 2 :: real) \<in> \<int>"
    then obtain k :: int where "(5 / 2 :: real) = of_int k" by (auto elim: Ints_cases)
    then have "(5 :: real) = of_int (2 * k)" by simp
    then have "(5 :: int) = 2 * k" using of_int_eq_iff [of 5 "2 * k", where 'a = real] by simp
    then show False by presburger
  qed
  have b: "(3::real) \<in> \<int>" by simp
  from a b speed_setter_stores_low_bits [of fresh_wheel 42 "5 / 2"]
    speed_setter_stores_low_bits [of fresh_wheel 42 3] show ?thesis by simp
qed

text \<open>
  Claim C9 as stated fails for the integer \<open>2 ^ 31\<close>: the setter accepts it and the cell
  then reads \<open>- 2 ^ 31\<close>.
\<close>

theorem speed_setter_wraps:
  "DoubleSpinningWheel_speed_setter fresh_wheel (PyInt 2147483648)
      = Inr (fresh_wheel\<lparr>dsw_speed := word_of_int 2147483648\<rparr>)
   \<and> DoubleSpinningWheel_speed (fresh_wheel\<lparr>dsw_speed := word_of_int 2147483648\<rparr>) = - 2147483648"
  by (simp add: DoubleSpinningWheel_speed_setter_def py_int_def py_eq_int_def cell_store_def
        DoubleSpinningWheel_speed_def cell_value_def)

text \<open>
  Claim C10.  On every handle that the constructor returns, reading the property
  \<open>image\<close> raises \<open>AttributeError\<close>, while the attribute \<open>_image\<close> that the
  constructor has set holds the path of the wheel image.
\<close>

theorem image_getter_raises:
  "DoubleSpinningWheel_init env sz off kw = Inr self \<Longrightarrow>
     DoubleSpinningWheel_image self = Inl AttributeError
     \<and> getattr self ''_image'' = Inr (PyPath (wheel_path env))"
  using init_fresh [of env sz off kw self]
  by (simp add: DoubleSpinningWheel_image_def getattr_def)

theorem image_getter_raises_witness:
  "DoubleSpinningWheel_init default_environment (PyNum (PyFloat (Fin (2 / 5)))) (PyNum (PyFloat (Fin (1 / 2)))) []
     = Inr fresh_wheel
   \<and> DoubleSpinningWheel_image fresh_wheel = Inl AttributeError
   \<and> getattr fresh_wheel ''_image'' = Inr (PyPath ''demo_realtime/feedbacks/resources/wheel.png'')"
  using image_getter_raises [OF init_default] init_default by (simp add: default_environment_def)

subsection \<open>The passes of the loop\<close>

lemma feedback_perc_full:
  "length xs = 100 \<Longrightarrow>
     feedback_perc (map Some xs) m =
       Inr (np_mul (np_clip (np_div (Fin (m - linear_percentile xs 5))
                                   (Fin (linear_percentile xs 95 - linear_percentile xs 5))) 0 1) (Fin 100))"
  using np_percentile_full [of xs 5] np_percentile_full [of xs 95]
  by (cases "xs = []") (auto simp: feedback_perc_def)

lemma call_speed_int:
  "call_speed s v = Inr (s\<lparr>events := events s @ [CallSpeed v],
                          feedback := (feedback s)\<lparr>dsw_speed := word_of_int v\<rparr>\<rparr>)"
  by (simp add: call_speed_def with_feedback_def DoubleSpinningWheel_speed_setter_def py_int_def
        py_eq_int_def cell_store_def)

lemma flat_feedback: "feedback_value (map Some (map flat [0..<100])) (flat 99) = Inl ValueError"
  using percentile_flat_run
  by (simp add: feedback_value_def feedback_perc_full flat_def py_int_def del: map_map)

lemma call_start_fresh:
  "dsw_status (feedback s) = 0 \<Longrightarrow> dsw_process (feedback s) = Unstarted \<Longrightarrow>
     call_start s = Inr (s\<lparr>events := events s @ [CallStart],
                           feedback := (feedback s)\<lparr>dsw_status := 1, dsw_process := Spawned\<rparr>\<rparr>)"
  by (simp add: call_start_def with_feedback_def start_fresh)

lemma loop_body_unfold:
  assumes "length (metrics s) = 100"
  shows "loop_body tk s =
     (let s1 = s\<lparr>metrics := (metrics s)[nat (inc s mod 100) := Some (metric tk)],
                 inc := inc s + 1, events := events s @ [Stored]\<rparr>
      in if inc s + 1 < 100 then Inr (s1\<lparr>start := t_stored tk\<rparr>)
         else
           case (if inc s + 1 = 100 then call_start s1 else Inr s1) of
             Inl r \<Rightarrow> Inl r
           | Inr s2 \<Rightarrow>
              (case feedback_value (metrics s2) (metric tk) of
                 Inl e \<Rightarrow> Inl (e, s2)
               | Inr v \<Rightarrow> call_speed s2 v))"
  using assms by (simp add: loop_body_def store_metric_def warming_up_def Let_def)

lemma call_start_frame:
  "inc (raised_state (call_start s)) = inc s \<and> start (raised_state (call_start s)) = start s
   \<and> metrics (raised_state (call_start s)) = metrics s"
  by (simp add: call_start_def with_feedback_def split: sum.splits prod.splits)

lemma loop_body_frame:
  assumes "length (metrics s) = 100"
  shows "inc (raised_state (loop_body tk s)) = inc s + 1
         \<and> length (metrics (raised_state (loop_body tk s))) = 100
         \<and> start (raised_state (loop_body tk s)) = (if inc s + 1 < 100 then t_stored tk else start s)"
proof (cases "inc s + 1 < 100")
  case True
  then show ?thesis using assms by (simp add: loop_body_unfold Let_def)
next
  case False
  let ?s1 = "s\<lparr>metrics := (metrics s)[nat (inc s mod 100) := Some (metric tk)],
                 inc := inc s + 1, events := events s @ [Stored]\<rparr>"
  show ?thesis
  proof (cases "inc s + 1 = 100")
    case True
    with False assms call_start_frame [of ?s1] show ?thesis
      by (cases "call_start ?s1")
         (auto simp: loop_body_unfold Let_def call_speed_int split: sum.splits)
  next
    case ne: False
    with False assms show ?thesis
      by (auto simp: loop_body_unfold Let_def call_speed_int split: sum.splits)
  qed
qed

lemma main_loop_append:
  "main_loop d (xs @ ys) s =
     (case main_loop d xs s of Pending s' \<Rightarrow> main_loop d ys s' | r \<Rightarrow> r)"
  by (induction xs arbitrary: s) (auto split: sum.splits)

lemma start_reference:
  assumes "length (metrics s) = 100" "0 \<le> inc s"
  shows "inc s \<le> inc (outcome_state (main_loop d ticks s))
         \<and> start (outcome_state (main_loop d ticks s)) =
             (if inc (outcome_state (main_loop d ticks s)) = inc s \<or> 99 \<le> inc s then start s
              else t_stored (ticks ! (nat (min (inc (outcome_state (main_loop d ticks s))) 99 - inc s) - 1)))"
  using assms
proof (induction ticks arbitrary: s)
  case Nil
  then show ?case by simp
next
  case (Cons tk tks)
  show ?case
  proof (cases "t_cond tk - start s \<le> d")
    case False
    then show ?thesis by simp
  next
    case True
    note fr = loop_body_frame [OF Cons.prems(1), of tk]
    show ?thesis
    proof (cases "loop_body tk s")
      case (Inl r)
      obtain e s' where r: "r = (e, s')" by (cases r)
      with Inl fr True show ?thesis by (auto simp: nat_diff_distrib)
    next
      case (Inr s')
      with fr have s': "inc s' = inc s + 1" "length (metrics s') = 100"
        "start s' = (if inc s + 1 < 100 then t_stored tk else start s)" by simp_all
      have pos: "0 \<le> inc s'" using s'(1) Cons.prems(2) by simp
      note IH = Cons.IH [OF s'(2) pos]
      let ?f = "outcome_state (main_loop d tks s')"
      have eq: "main_loop d (tk # tks) s = main_loop d tks s'" using True Inr by simp
      from IH have ge: "inc s' \<le> inc ?f" by simp
      show ?thesis
      proof (cases "99 \<le> inc s")
        case True
        with IH s' show ?thesis by (simp add: eq del: main_loop.simps)
      next
        case lt: False
        show ?thesis
        proof (cases "inc ?f = inc s' \<or> 99 \<le> inc s'")
          case True
          with IH have "start ?f = t_stored tk" using s' lt by simp
          moreover have "nat (min (inc ?f) 99 - inc s) - 1 = 0" using True s'(1) lt ge by auto
          ultimately show ?thesis using ge s'(1) lt by (simp add: eq del: main_loop.simps)
        next
          case False
          with IH have st: "start ?f = t_stored (tks ! (nat (min (inc ?f) 99 - inc s') - 1))" by simp
          from False ge s'(1) have "nat (min (inc ?f) 99 - inc s) - 1 = Suc (nat (min (inc ?f) 99 - inc s') - 1)"
            by auto
          with st ge s'(1) lt show ?thesis by (simp add: eq del: main_loop.simps)
        qed
      qed
    qed
  qed
qed

lemma count_list_replicate_same: "count_list (replicate n x) x = n"
  by (induction n) simp_all

lemma run_invariant_initial:
  "dsw_status fb = 0 \<Longrightarrow> dsw_process fb = Unstarted \<Longrightarrow> run_invariant (initial_state t0 fb)"
  by (simp add: run_invariant_def initial_state_def)

lemma replicate_snoc_nat:
  "0 \<le> i \<Longrightarrow> replicate (nat i) x @ [x] = replicate (nat (i + 1)) x"
  by (simp add: nat_add_distrib replicate_append_same)

lemma run_invariant_body:
  assumes "run_invariant s"
  shows "run_invariant (raised_state (loop_body tk s))"
proof -
  from assms have len: "length (metrics s) = 100" and pos: "0 \<le> inc s"
    and cnt: "int (count_list (events s) Stored) = inc s" and nostop: "CallStop \<notin> set (events s)"
    by (simp_all add: run_invariant_def)
  let ?s1 = "s\<lparr>metrics := (metrics s)[nat (inc s mod 100) := Some (metric tk)],
                 inc := inc s + 1, events := events s @ [Stored]\<rparr>"
  consider (warm) "inc s + 1 < 100" | (fill) "inc s + 1 = 100" | (active) "100 \<le> inc s"
    by linarith
  then show ?thesis
  proof cases
    case warm
    with assms have ev: "events s = replicate (nat (inc s)) Stored"
      and fb: "dsw_status (feedback s) = 0" "dsw_process (feedback s) = Unstarted"
      by (simp_all add: run_invariant_def)
    have "events s @ [Stored] = replicate (nat (inc s + 1)) Stored"
      using replicate_snoc_nat [OF pos, of Stored] ev by simp
    with warm len pos cnt nostop fb show ?thesis
      by (simp add: loop_body_unfold Let_def run_invariant_def count_list_replicate_same)
  next
    case fill
    with assms have ev: "events s = replicate (nat (inc s)) Stored"
      and fb: "dsw_status (feedback s) = 0" "dsw_process (feedback s) = Unstarted"
      by (simp_all add: run_invariant_def)
    from fill have i: "inc s = 99" by simp
    have ev1: "events s @ [Stored] = replicate 100 Stored"
      using replicate_snoc_nat [OF pos, of Stored] ev i by simp
    have cs: "call_start ?s1 = Inr (?s1\<lparr>events := events ?s1 @ [CallStart],
                feedback := (feedback ?s1)\<lparr>dsw_status := 1, dsw_process := Spawned\<rparr>\<rparr>)"
      using fb by (intro call_start_fresh) simp_all
    show ?thesis
      using len i ev1 cs
      by (auto simp: loop_body_unfold Let_def run_invariant_def call_speed_int
            count_list_replicate_same split: sum.splits)
  next
    case active
    with assms obtain post where ev: "events s = replicate 100 Stored @ CallStart # post"
      and post: "CallStart \<notin> set post"
      and fb: "dsw_status (feedback s) = 1" "dsw_process (feedback s) = Spawned"
      by (auto simp: run_invariant_def)
    from active len cnt nostop ev post fb show ?thesis
      by (auto simp: loop_body_unfold Let_def run_invariant_def call_speed_int
            count_list_replicate_same split: sum.splits)
  qed
qed

lemma run_invariant_main_loop:
  "run_invariant s \<Longrightarrow> run_invariant (outcome_state (main_loop d ticks s))"
proof (induction ticks arbitrary: s)
  case Nil
  then show ?case by simp
next
  case (Cons tk tks)
  from run_invariant_body [OF Cons.prems, of tk] Cons.IH Cons.prems show ?case
    by (cases "loop_body tk s") (auto split: prod.splits)
qed

lemma call_stop_events:
  "events (raised_state (call_stop s)) = events s @ [CallStop]
   \<and> inc (raised_state (call_stop s)) = inc s \<and> start (raised_state (call_stop s)) = start s"
  by (simp add: call_stop_def with_feedback_def split: sum.splits prod.splits)

lemma control_loop_events:
  "events (outcome_state (control_loop d t0 ticks fb)) =
     (if exited (main_loop d ticks (initial_state t0 fb))
      then events (outcome_state (main_loop d ticks (initial_state t0 fb))) @ [CallStop]
      else events (outcome_state (main_loop d ticks (initial_state t0 fb))))"
proof (cases "main_loop d ticks (initial_state t0 fb)")
  case (Exited s)
  with call_stop_events [of s] show ?thesis
    by (cases "call_stop s") (auto simp: control_loop_def)
qed (simp_all add: control_loop_def)

text \<open>
  Lines 47 to 90 taken by themselves, entered with a handle on which neither \<open>start\<close>
  nor \<open>stop\<close> has been called.  Whatever the outcome: while fewer than 100 metrics have
  been stored \<open>start\<close> has not been called; once 100 have been stored the log is 100
  stores, then the call of \<open>start\<close>, then entries none of which is a call of \<open>start\<close>.
\<close>

lemma loop_start_once:
  assumes "dsw_status fb = 0" and "dsw_process fb = Unstarted"
  shows "let ev = events (outcome_state (control_loop d t0 ticks fb)) in
           (count_list ev Stored < 100 \<longrightarrow> CallStart \<notin> set ev)
           \<and> (100 \<le> count_list ev Stored \<longrightarrow>
                (\<exists>post. ev = replicate 100 Stored @ CallStart # post \<and> CallStart \<notin> set post))
           \<and> count_list ev CallStart = (if 100 \<le> count_list ev Stored then 1 else 0)"
proof -
  let ?m = "outcome_state (main_loop d ticks (initial_state t0 fb))"
  let ?ev = "events (outcome_state (control_loop d t0 ticks fb))"
  have inv: "run_invariant ?m"
    by (intro run_invariant_main_loop run_invariant_initial assms)
  then have cnt: "int (count_list (events ?m) Stored) = inc ?m" by (simp add: run_invariant_def)
  have ev: "?ev = events ?m \<or> ?ev = events ?m @ [CallStop]"
    by (simp add: control_loop_events)
  then have cnt': "count_list ?ev Stored = count_list (events ?m) Stored"
    by auto
  show ?thesis
  proof (cases "inc ?m < 100")
    case True
    with inv have "events ?m = replicate (nat (inc ?m)) Stored" by (simp add: run_invariant_def)
    with ev have no: "CallStart \<notin> set ?ev" by auto
    from True cnt cnt' have "count_list ?ev Stored < 100" by simp
    with no show ?thesis by (simp add: Let_def count_list_0_iff)
  next
    case False
    with inv obtain post where post: "events ?m = replicate 100 Stored @ CallStart # post"
      "CallStart \<notin> set post"
      by (auto simp: run_invariant_def)
    from ev obtain post' where post': "?ev = replicate 100 Stored @ CallStart # post'"
      "CallStart \<notin> set post'"
    proof
      assume "?ev = events ?m" with post that show ?thesis by simp
    next
      assume "?ev = events ?m @ [CallStop]"
      with post that [of "post @ [CallStop]"] show ?thesis by simp
    qed
    from False cnt cnt' have ge: "100 \<le> count_list ?ev Stored" by simp
    have "count_list ?ev CallStart = 1"
      by (simp add: post' count_list_0_iff)
    with ge post' show ?thesis by (simp add: Let_def)
  qed
qed

text \<open>
  When the loop is left through its condition, \<open>stop\<close> is called whatever the state.  If
  fewer than 100 metrics have been stored by then the status cell reads 0 and the call
  raises \<open>RuntimeError\<close>; otherwise it succeeds and sets the status to 0.
\<close>

lemma loop_teardown_stop:
  assumes "dsw_status fb = 0" and "dsw_process fb = Unstarted"
    and "main_loop d ticks (initial_state t0 fb) = Exited s"
  shows "control_loop d t0 ticks fb =
           (if inc s < 100 then Raised RuntimeError (s\<lparr>events := events s @ [CallStop]\<rparr>)
            else Returned (s\<lparr>events := events s @ [CallStop],
                            feedback := (feedback s)\<lparr>dsw_status := 0\<rparr>\<rparr>))
         \<and> (inc s < 100 \<longrightarrow> CallStart \<notin> set (events s) \<and> cell_value (dsw_status (feedback s)) = 0)"
proof -
  have "run_invariant (outcome_state (main_loop d ticks (initial_state t0 fb)))"
    by (intro run_invariant_main_loop run_invariant_initial assms)
  then have inv: "run_invariant s" by (simp add: assms(3))
  show ?thesis
  proof (cases "inc s < 100")
    case True
    with inv have fb: "dsw_status (feedback s) = 0" and ev: "events s = replicate (nat (inc s)) Stored"
      by (simp_all add: run_invariant_def)
    from ev have "CallStart \<notin> set (events s)" by (metis event.distinct(1) in_set_replicate)
    with True fb show ?thesis
      by (simp add: control_loop_def assms(3) call_stop_def with_feedback_def stop_stopped cell_value_0)
  next
    case False
    with inv have fb: "dsw_status (feedback s) = 1" "dsw_process (feedback s) = Spawned"
      by (simp_all add: run_invariant_def)
    with False show ?thesis
      by (simp add: control_loop_def assms(3) call_stop_def with_feedback_def stop_running)
  qed
qed

text \<open>
  The reference time of the loop condition is the clock value read at line 77 in the last
  pass that was skipped: the session start while no pass has completed, else the value
  read in pass \<open>min n 99\<close> when \<open>n\<close> metrics have been stored.
\<close>

lemma loop_clock_reference:
  "let s = outcome_state (main_loop d ticks (initial_state t0 fb)); n = nat (inc s) in
     start s = (if n = 0 then t0 else t_stored (ticks ! (min n 99 - 1)))"
proof -
  let ?s = "outcome_state (main_loop d ticks (initial_state t0 fb))"
  from start_reference [of "initial_state t0 fb" d ticks]
  have ge: "0 \<le> inc ?s"
    and st: "start ?s = (if inc ?s = 0 then t0 else t_stored (ticks ! (nat (min (inc ?s) 99) - 1)))"
    by (simp_all add: initial_state_def)
  have "nat (min (inc ?s) 99) = min (nat (inc ?s)) 99" using ge by auto
  with ge st show ?thesis by (auto simp: Let_def)
qed

subsection \<open>A run on a constant metric\<close>

lemma body_on_stored:
  "loop_body tk \<lparr>metrics = fst (stored ms), inc = int (length ms), start = st, feedback = fb, events = ev\<rparr> =
     (let s1 = \<lparr>metrics = fst (stored (ms @ [metric tk])), inc = int (length ms) + 1, start = st,
                feedback = fb, events = ev @ [Stored]\<rparr>
      in if length ms + 1 < 100 then Inr (s1\<lparr>start := t_stored tk\<rparr>)
         else
           case (if length ms + 1 = 100 then call_start s1 else Inr s1) of
             Inl r \<Rightarrow> Inl r
           | Inr s2 \<Rightarrow>
              (case feedback_value (metrics s2) (metric tk) of
                 Inl e \<Rightarrow> Inl (e, s2)
               | Inr v \<Rightarrow> call_speed s2 v))"
proof -
  have c: "(fst (stored ms), int (length ms)) = stored ms"
    using stored_count_length [of ms] by (cases "stored ms") simp
  have l: "length (fst (stored (ms @ [metric tk]))) = 100"
    and n: "snd (stored (ms @ [metric tk])) = int (length ms) + 1"
    using stored_count_length [of "ms @ [metric tk]"] by simp_all
  have w: "warming_up (stored (ms @ [metric tk])) \<longleftrightarrow> length ms + 1 < 100"
    by (simp add: warming_up_stored)
  show ?thesis
    by (simp add: loop_body_def c stored_snoc [symmetric] w l n Let_def)
qed

lemma ticks_of_Suc:
  "ticks_of f (Suc n) = ticks_of f n @ [\<lparr> t_cond = 3 * real n, metric = f n, t_stored = 3 * real n + 3 \<rparr>]"
  by (simp add: ticks_of_def)

lemma warmup_run:
  "n \<le> 99 \<Longrightarrow> 0 \<le> d \<Longrightarrow>
     main_loop d (ticks_of f n) (initial_state 0 fb) =
       Pending \<lparr>metrics = fst (stored (map f [0..<n])), inc = int n, start = 3 * real n,
                feedback = fb, events = replicate n Stored\<rparr>"
proof (induction n)
  case 0
  then show ?case by (simp add: ticks_of_def initial_state_def stored_Nil)
next
  case (Suc n)
  then have IH: "main_loop d (ticks_of f n) (initial_state 0 fb) =
       Pending \<lparr>metrics = fst (stored (map f [0..<n])), inc = int n, start = 3 * real n,
                feedback = fb, events = replicate n Stored\<rparr>" by simp
  from Suc.prems have n: "n + 1 < 100" by simp
  show ?case
    using Suc.prems(2) n
      body_on_stored [of "\<lparr> t_cond = 3 * real n, metric = f n, t_stored = 3 * real n + 3 \<rparr>"
        "map f [0..<n]" "3 * real n" fb "replicate n Stored"]
    by (simp add: ticks_of_Suc main_loop_append IH Let_def replicate_append_same algebra_simps)
qed

lemma fill_run:
  assumes "0 \<le> d" "dsw_status fb = 0" "dsw_process fb = Unstarted"
  shows "main_loop d (ticks_of f 100) (initial_state 0 fb) =
     (case feedback_value (map Some (map f [0..<100])) (f 99) of
        Inl e \<Rightarrow>
          Raised e \<lparr>metrics = map Some (map f [0..<100]), inc = 100, start = 297,
                    feedback = fb\<lparr>dsw_status := 1, dsw_process := Spawned\<rparr>,
                    events = replicate 100 Stored @ [CallStart]\<rparr>
      | Inr v \<Rightarrow>
          Pending \<lparr>metrics = map Some (map f [0..<100]), inc = 100, start = 297,
                   feedback = fb\<lparr>dsw_status := 1, dsw_process := Spawned, dsw_speed := word_of_int v\<rparr>,
                   events = replicate 100 Stored @ [CallStart, CallSpeed v]\<rparr>)"
proof -
  have t: "ticks_of f 100 = ticks_of f 99 @ [\<lparr> t_cond = 297, metric = f 99, t_stored = 300 \<rparr>]"
    using ticks_of_Suc [of f 99] by simp
  have u: "[0..<100] = [0..<99] @ [99]"
    using upt_Suc_append [of 0 99] by simp
  have m: "map f [0..<99] @ [f 99] = map f [0..<100]"
    by (simp only: u map_append list.map)
  have st: "fst (stored (map f [0..<100])) = map Some (map f [0..<100])"
    by (rule stored_100) simp
  have e: "(100::nat) = Suc 99" by simp
  have r: "replicate 99 Stored @ [Stored] = replicate 100 Stored"
    by (simp only: e replicate_Suc replicate_append_same)
  let ?s1 = "\<lparr>metrics = map Some (map f [0..<100]), inc = 100, start = 297,
                feedback = fb, events = replicate 100 Stored\<rparr>"
  have cs: "call_start ?s1 = Inr (?s1\<lparr>events := events ?s1 @ [CallStart],
                feedback := (feedback ?s1)\<lparr>dsw_status := 1, dsw_process := Spawned\<rparr>\<rparr>)"
    using assms(2,3) by (intro call_start_fresh) simp_all
  have b: "loop_body \<lparr> t_cond = 297, metric = f 99, t_stored = 300 \<rparr>
             \<lparr>metrics = fst (stored (map f [0..<99])), inc = 99, start = 297,
              feedback = fb, events = replicate 99 Stored\<rparr> =
           (case feedback_value (map Some (map f [0..<100])) (f 99) of
              Inl e \<Rightarrow> Inl (e, \<lparr>metrics = map Some (map f [0..<100]), inc = 100, start = 297,
                    feedback = fb\<lparr>dsw_status := 1, dsw_process := Spawned\<rparr>,
                    events = replicate 100 Stored @ [CallStart]\<rparr>)
            | Inr v \<Rightarrow> Inr \<lparr>metrics = map Some (map f [0..<100]), inc = 100, start = 297,
                   feedback = fb\<lparr>dsw_status := 1, dsw_process := Spawned, dsw_speed := word_of_int v\<rparr>,
                   events = replicate 100 Stored @ [CallStart, CallSpeed v]\<rparr>)"
    using body_on_stored [of "\<lparr> t_cond = 297, metric = f 99, t_stored = 300 \<rparr>"
        "map f [0..<99]" 297 fb "replicate 99 Stored"]
    by (simp add: m st r cs call_speed_int Let_def del: map_map split: sum.splits)
  show ?thesis
    using assms(1) warmup_run [of 99 d f fb]
    by (simp add: t main_loop_append b del: map_map split: sum.splits)
qed

lemma flat_run:
  "main_loop 30 (ticks_of flat 100) (initial_state 0 fresh_wheel) =
     Raised ValueError
       \<lparr>metrics = map Some (map flat [0..<100]), inc = 100, start = 297,
        feedback = fresh_wheel\<lparr>dsw_status := 1, dsw_process := Spawned\<rparr>,
        events = replicate 100 Stored @ [CallStart]\<rparr>"
  using fill_run [of 30 fresh_wheel flat] fresh_wheel_fresh
  by (simp add: flat_feedback del: map_map)

text \<open>
  Claim C6.  When the two percentiles of the filled buffer coincide, the quotient of line 84
  is computed with the denominator 0 and nothing intercepts it: the result is whatever the
  division by zero yields, not-a-number when the metric equals the percentile (then
  \<open>int\<close> raises \<open>ValueError\<close>), otherwise an infinity that is clipped to 1 or 0.
\<close>

theorem degenerate_range_divides_by_zero:
  assumes "length xs = 100" and "linear_percentile xs 5 = lo" and "linear_percentile xs 95 = lo"
  shows "feedback_perc (map Some xs) m
           = Inr (np_mul (np_clip (np_div (Fin (m - lo)) (Fin 0)) 0 1) (Fin 100))
         \<and> feedback_value (map Some xs) m
           = (if m = lo then Inl ValueError else if lo < m then Inr 100 else Inr 0)"
  by (simp add: feedback_value_def feedback_perc_full [OF assms(1)] assms(2,3) py_int_def trunc_def)

theorem degenerate_range_divides_by_zero_witness:
  "length (map flat [0..<100]) = 100
   \<and> linear_percentile (map flat [0..<100]) 5 = 5 \<and> linear_percentile (map flat [0..<100]) 95 = 5
   \<and> feedback_perc (map Some (map flat [0..<100])) 5 = Inr NaN
   \<and> feedback_value (map Some (map flat [0..<100])) 5 = Inl ValueError
   \<and> feedback_value (map Some (map flat [0..<100])) 6 = Inr 100
   \<and> control_loop 30 0 (ticks_of flat 100) fresh_wheel
       = Raised ValueError
           \<lparr>metrics = map Some (map flat [0..<100]), inc = 100, start = 297,
            feedback = fresh_wheel\<lparr>dsw_status := 1, dsw_process := Spawned\<rparr>,
            events = replicate 100 Stored @ [CallStart]\<rparr>"
  using degenerate_range_divides_by_zero [of "map flat [0..<100]" 5 5] degenerate_range_divides_by_zero [of "map flat [0..<100]" 5 6] percentile_flat_run
  by (simp add: control_loop_def flat_run del: map_map)

subsection \<open>The function as a whole\<close>

text \<open>
  Every call of the function ends before line 47: in one of the two assertions, in the
  import of psychopy, in the check of the image, or else in the constructor, which refuses
  the tuple \<open>(800, 800)\<close> with \<open>TypeError\<close>.
\<close>

lemma nfb_raises_before_loop:
  "nfb_double_spinning_wheel env stream_name winsize duration ch_names t0 ticks =
     Inl (if \<not> 0 < winsize \<or> \<not> 0 < duration then AssertionError
          else if \<not> psychopy_installed env then ImportError
          else if \<not> (wheel_is_file env \<and> has_suffix ''.png'' (wheel_path env)) then AssertionError
          else TypeError)"
  by (simp add: nfb_double_spinning_wheel_def DoubleSpinningWheel_init_def Let_def outside_unit_def)

lemma default_call_raises:
  "0 < winsize \<Longrightarrow> 0 < duration \<Longrightarrow>
     nfb_double_spinning_wheel default_environment stream_name winsize duration ch_names t0 ticks
       = Inl TypeError"
  by (simp add: nfb_raises_before_loop default_environment_def has_suffix_def)

text \<open>
  Claim C1 against the function.  With a window of 3 seconds, a duration of 30 seconds and
  a stream that delivers 200 windows, the function raises \<open>TypeError\<close> at line 45 and
  \<open>start\<close> is not called once but never; and no call of the function ever calls it.
\<close>

theorem start_never_invoked:
  "nfb_double_spinning_wheel default_environment ''stream'' 3 30 occipital_stream 0 (ticks_of ramp 200)
     = Inl TypeError
   \<and> count_list
        (run_events (nfb_double_spinning_wheel default_environment ''stream'' 3 30 occipital_stream 0
                       (ticks_of ramp 200))) CallStart = 0
   \<and> CallStart \<notin> set (run_events (nfb_double_spinning_wheel env stream_name winsize duration ch_names t0 ticks))"
  by (simp add: default_call_raises) (simp add: nfb_raises_before_loop run_events_def)



end
